theory Spec2Isabelle
  imports Main "HOL-Library.Word"
begin

unbundle bit_operations_syntax

section \<open>Kernel ABI constants (uinputdefs.go)\<close>

text \<open>
  Go's constants are untyped; each one is given here the type of the place where
  uinput.go uses it: event types and codes are \<open>uint16\<close> fields, ioctl request
  numbers are \<open>uintptr\<close> (64 bits on the platforms the 24-byte event record
  belongs to), button states are \<open>int\<close>.
\<close>

type_synonym byte = "8 word"

definition uiDevDestroy :: "64 word" where "uiDevDestroy = 0x5502"
definition uiSetEvBit :: "64 word" where "uiSetEvBit = 0x40045564"
definition uiBeginFFUpload :: "64 word" where "uiBeginFFUpload = 0xc06855c8"
definition uiEndFFUpload :: "64 word" where "uiEndFFUpload = 0x406855c9"
definition uiBeginFFErase :: "64 word" where "uiBeginFFErase = 0xc00c55ca"
definition uiEndFFErase :: "64 word" where "uiEndFFErase = 0x400c55cb"

definition evSyn :: "16 word" where "evSyn = 0x00"
definition evKey :: "16 word" where "evKey = 0x01"
definition synReport :: "16 word" where "synReport = 0"

definition btnStateReleased :: "64 word" where "btnStateReleased = 0"
definition btnStatePressed :: "64 word" where "btnStatePressed = 1"

definition evUinput :: "16 word" where "evUinput = 0x0101"
definition uiFFUpload :: "16 word" where "uiFFUpload = 1"
definition uiFFErase :: "16 word" where "uiFFErase = 2"

section \<open>Little-endian byte order\<close>

text \<open>
  \<open>le_bytes n w\<close> is the \<open>n\<close> low bytes of \<open>w\<close>, least significant first, as
  \<open>binary.LittleEndian.PutUint16/32/64\<close> store them; \<open>le_word\<close> is the inverse
  \<open>binary.LittleEndian.Uint16/32/64\<close>. The same two functions describe what a
  little-endian machine sees when it reads a \<open>uint16\<close> through a pointer into a
  byte array.
\<close>

fun le_bytes :: "nat \<Rightarrow> 'a::len word \<Rightarrow> byte list" where
  "le_bytes 0 w = []"
| "le_bytes (Suc n) w = ucast w # le_bytes n (drop_bit 8 w)"

fun le_word :: "byte list \<Rightarrow> 'a::len word" where
  "le_word [] = 0"
| "le_word (b # bs) = ucast b OR push_bit 8 (le_word bs)"

section \<open>The event record and its codec (uinputdefs.go, uinput.go)\<close>

text \<open>
  \<open>syscall.Timeval\<close> on a 64-bit Linux target is two \<open>int64\<close>; with it the event
  record is 8 + 8 + 2 + 2 + 4 = 24 bytes. Signed fields are kept as words: the
  codec moves their two's complement bits unchanged.
\<close>

record Timeval =
  Sec :: "64 word"
  Usec :: "64 word"

record inputEvent =
  Time :: Timeval
  Type :: "16 word"
  Code :: "16 word"
  Value :: "32 word"

text \<open>
  Go's \<open>error\<close> values. \<open>Errno\<close> is the \<open>syscall.Errno\<close> that \<open>ioctl\<close>
  returns, \<open>IOError\<close> an error value coming out of \<open>os.File\<close> or \<open>io\<close>,
  \<open>ErrorNew msg\<close> is \<open>errors.New(msg)\<close> (or \<open>fmt.Errorf\<close> without arguments) and
  \<open>Errorf msg e\<close> is \<open>fmt.Errorf(msg + ": %v", e)\<close>. A returned \<open>error\<close> is an
  option: \<open>None\<close> is \<open>nil\<close>.
\<close>

datatype goerror =
    Errno "64 word"
  | IOError string
  | ErrorNew string
  | Errorf string goerror

type_synonym error = "goerror option"

text \<open>
  \<open>binary.Write\<close> of a struct of fixed-size fields into a \<open>bytes.Buffer\<close> writes
  the fields in declaration order and cannot fail, so the error branch of
  \<open>inputEventToBuffer\<close> is never taken; the result type keeps it.
\<close>

definition inputEventToBuffer :: "inputEvent \<Rightarrow> goerror + byte list" where
  "inputEventToBuffer iev =
     Inr (le_bytes 8 (Sec (Time iev)) @ le_bytes 8 (Usec (Time iev))
          @ le_bytes 2 (inputEvent.Type iev) @ le_bytes 2 (Code iev)
          @ le_bytes 4 (Value iev))"

text \<open>
  \<open>binary.Read\<close> takes the 24 bytes of the record from the front of the buffer
  with \<open>io.ReadFull\<close>: an empty buffer gives \<open>io.EOF\<close>, a shorter one
  \<open>io.ErrUnexpectedEOF\<close>.
\<close>

definition inputEventFromBuffer :: "byte list \<Rightarrow> goerror + inputEvent" where
  "inputEventFromBuffer buffer =
     (if length buffer = 0 then
        Inl (Errorf ''failed to read buffer to input event'' (IOError ''EOF''))
      else if length buffer < 24 then
        Inl (Errorf ''failed to read buffer to input event'' (IOError ''unexpected EOF''))
      else
        Inr \<lparr> Time = \<lparr> Sec = le_word (take 8 buffer),
                        Usec = le_word (take 8 (drop 8 buffer)) \<rparr>,
              Type = le_word (take 2 (drop 16 buffer)),
              Code = le_word (take 2 (drop 18 buffer)),
              Value = le_word (take 4 (drop 20 buffer)) \<rparr>)"

section \<open>Force-feedback effect records (uinputdefs.go)\<close>

text \<open>
  The structs keep their field names; where two structs share one (\<open>Type\<close>,
  \<open>RequestID\<close>, \<open>ReturnValue\<close>) the field is written qualified. \<open>int16\<close> and
  \<open>int32\<close> fields are words read in two's complement. The blank \<open>uint16\<close>
  padding field of \<open>FFEffect\<close> holds no data and is left out; \<open>u\<close> is the 32-byte
  array behind the kernel's union, so its length is 32 in every effect record the
  program can hold.
\<close>

record FFReplay =
  Length :: "16 word"
  Delay :: "16 word"

record FFTrigger =
  Button :: "16 word"
  Interval :: "16 word"

record FFConditionEffect =
  RightSaturation :: "16 word"
  LeftSaturation :: "16 word"
  RightCoeff :: "16 word"
  LeftCoeff :: "16 word"
  Deadband :: "16 word"
  Center :: "16 word"

record FFRumbleEffect =
  StrongMagnitude :: "16 word"
  WeakMagnitude :: "16 word"

record FFEffect =
  Type :: "16 word"
  ID :: "16 word"
  Direction :: "16 word"
  Trigger :: FFTrigger
  Replay :: FFReplay
  u :: "byte list"

text \<open>
  \<open>*(*T)(unsafe.Pointer(&ff.u[off]))\<close> reads the fields of \<open>T\<close> from the bytes that
  start at index \<open>off\<close> of the array, in the byte order of the machine. Linux targets
  of Go with this record layout are little-endian. \<open>load16 mem off\<close> is the
  \<open>uint16\<close> (or \<open>int16\<close>) at byte \<open>off\<close>; \<open>FFConditionEffect\<close> is six such
  fields, 12 bytes in all, and \<open>FFRumbleEffect\<close> two, 4 bytes.
\<close>

definition load16 :: "byte list \<Rightarrow> nat \<Rightarrow> 16 word" where
  "load16 mem off = le_word (take 2 (drop off mem))"

definition Rumble :: "FFEffect \<Rightarrow> FFRumbleEffect" where
  "Rumble ff = \<lparr> StrongMagnitude = load16 (u ff) 0, WeakMagnitude = load16 (u ff) 2 \<rparr>"

definition FFConditionEffect_at :: "byte list \<Rightarrow> nat \<Rightarrow> FFConditionEffect" where
  "FFConditionEffect_at mem off =
     \<lparr> RightSaturation = load16 mem off,
       LeftSaturation = load16 mem (off + 2),
       RightCoeff = load16 mem (off + 4),
       LeftCoeff = load16 mem (off + 6),
       Deadband = load16 mem (off + 8),
       Center = load16 mem (off + 10) \<rparr>"

text \<open>The result \<open>[2]FFConditionEffect\<close> is the pair \<open>(r[0], r[1])\<close>.\<close>

definition Condition :: "FFEffect \<Rightarrow> FFConditionEffect \<times> FFConditionEffect" where
  "Condition ff = (FFConditionEffect_at (u ff) 0, FFConditionEffect_at (u ff) 16)"

record UInputFFUpload =
  RequestID :: "32 word"
  ReturnValue :: "32 word"
  Effect :: FFEffect
  OldEffect :: FFEffect

record UInputFFErase =
  RequestID :: "32 word"
  ReturnValue :: "32 word"
  EffectID :: "32 word"

text \<open>The zero values that \<open>UInputFFUpload{}\<close> and \<open>UInputFFErase{}\<close> denote.\<close>

definition zeroFFEffect :: FFEffect where
  "zeroFFEffect =
     \<lparr> Type = 0, ID = 0, Direction = 0,
       Trigger = \<lparr> Button = 0, Interval = 0 \<rparr>,
       Replay = \<lparr> Length = 0, Delay = 0 \<rparr>,
       u = replicate 32 0 \<rparr>"

definition zeroFFUpload :: UInputFFUpload where
  "zeroFFUpload =
     \<lparr> UInputFFUpload.RequestID = 0, UInputFFUpload.ReturnValue = 0,
       Effect = zeroFFEffect, OldEffect = zeroFFEffect \<rparr>"

definition zeroFFErase :: UInputFFErase where
  "zeroFFErase =
     \<lparr> UInputFFErase.RequestID = 0, UInputFFErase.ReturnValue = 0, EffectID = 0 \<rparr>"

section \<open>The device file and the kernel behind it\<close>

text \<open>
  Every operation of uinput.go on the device file is a system call, and the callback
  is a call into the user's code. The model threads the trace of these calls through
  the functions: each call appends one \<open>action\<close>, so a final trace says what was
  done, in which order and how often. What a call returns is the kernel's choice; a
  \<open>kernel\<close> is any answer to each call as a function of the trace so far, so no
  assumption is made on how the device behaves.
\<close>

datatype ioctl_arg =
    ArgUintptr "64 word"
  | ArgFFUpload UInputFFUpload
  | ArgFFErase UInputFFErase

datatype action =
    Read nat
  | Write "byte list"
  | Ioctl "64 word" ioctl_arg
  | Close
  | Callback "UInputFFUpload option" "UInputFFErase option"

type_synonym trace = "action list"

text \<open>
  \<open>k_read h n\<close>: the bytes delivered to a read of \<open>n\<close> bytes, and its error.
  \<open>k_write h b\<close>: the error of writing \<open>b\<close>. \<open>k_ioctl h cmd arg\<close>: the error number
  of a control call with a plain argument (0 is success). \<open>k_ioctl_upload\<close> and
  \<open>k_ioctl_erase\<close>: the same for a control call whose argument points to a request
  record, with the record as the kernel leaves it. \<open>k_close h\<close>: the error of close.
\<close>

record kernel =
  k_read :: "trace \<Rightarrow> nat \<Rightarrow> byte list \<times> error"
  k_write :: "trace \<Rightarrow> byte list \<Rightarrow> error"
  k_ioctl :: "trace \<Rightarrow> 64 word \<Rightarrow> 64 word \<Rightarrow> 64 word"
  k_ioctl_upload :: "trace \<Rightarrow> 64 word \<Rightarrow> UInputFFUpload \<Rightarrow> 64 word \<times> UInputFFUpload"
  k_ioctl_erase :: "trace \<Rightarrow> 64 word \<Rightarrow> UInputFFErase \<Rightarrow> 64 word \<times> UInputFFErase"
  k_close :: "trace \<Rightarrow> error"

text \<open>
  \<open>deviceFile.Read(buf)\<close> on a zeroed buffer of \<open>len\<close> bytes: the result is the
  buffer after the call, the count \<open>n\<close> and the error. \<open>os.File.Read\<close> never
  returns a count of 0 with a \<open>nil\<close> error for a buffer that is not empty: when the
  system call delivers no byte and no error, the error is \<open>io.EOF\<close>.
\<close>

definition file_Read :: "kernel \<Rightarrow> nat \<Rightarrow> trace \<Rightarrow> (byte list \<times> nat \<times> error) \<times> trace" where
  "file_Read K len h =
     (case k_read K h len of
        (data, err) \<Rightarrow>
          ((take len data @ replicate (len - length data) 0,
            min (length data) len,
            if err = None \<and> min (length data) len = 0 \<and> 0 < len
            then Some (IOError ''EOF'') else err),
           h @ [Read len]))"

definition file_Write :: "kernel \<Rightarrow> byte list \<Rightarrow> trace \<Rightarrow> error \<times> trace" where
  "file_Write K b h = (k_write K h b, h @ [Write b])"

definition file_Close :: "kernel \<Rightarrow> trace \<Rightarrow> error \<times> trace" where
  "file_Close K h = (k_close K h, h @ [Close])"

text \<open>
  \<open>ioctl(deviceFile, cmd, ptr)\<close>: the error is the error number when it is not 0.
  Go passes every argument as an untyped \<open>uintptr\<close>; the model has one copy of the
  function for each kind of argument that uinput.go passes.
\<close>

definition ioctl :: "kernel \<Rightarrow> 64 word \<Rightarrow> 64 word \<Rightarrow> trace \<Rightarrow> error \<times> trace" where
  "ioctl K cmd ptr h =
     (let errorCode = k_ioctl K h cmd ptr
      in (if errorCode \<noteq> 0 then Some (Errno errorCode) else None,
          h @ [Ioctl cmd (ArgUintptr ptr)]))"

definition ioctl_FFUpload ::
  "kernel \<Rightarrow> 64 word \<Rightarrow> UInputFFUpload \<Rightarrow> trace \<Rightarrow> (error \<times> UInputFFUpload) \<times> trace" where
  "ioctl_FFUpload K cmd ffUp h =
     (case k_ioctl_upload K h cmd ffUp of
        (errorCode, ffUp') \<Rightarrow>
          ((if errorCode \<noteq> 0 then Some (Errno errorCode) else None, ffUp'),
           h @ [Ioctl cmd (ArgFFUpload ffUp)]))"

definition ioctl_FFErase ::
  "kernel \<Rightarrow> 64 word \<Rightarrow> UInputFFErase \<Rightarrow> trace \<Rightarrow> (error \<times> UInputFFErase) \<times> trace" where
  "ioctl_FFErase K cmd ffErs h =
     (case k_ioctl_erase K h cmd ffErs of
        (errorCode, ffErs') \<Rightarrow>
          ((if errorCode \<noteq> 0 then Some (Errno errorCode) else None, ffErs'),
           h @ [Ioctl cmd (ArgFFErase ffErs)]))"

section \<open>Device teardown (uinput.go)\<close>

definition releaseDevice :: "kernel \<Rightarrow> trace \<Rightarrow> error \<times> trace" where
  "releaseDevice K h = ioctl K uiDevDestroy 0 h"

definition closeDevice :: "kernel \<Rightarrow> trace \<Rightarrow> error \<times> trace" where
  "closeDevice K h =
     (case releaseDevice K h of
        (Some err, h') \<Rightarrow> (Some (Errorf ''failed to close device'' err), h')
      | (None, h') \<Rightarrow> file_Close K h')"

text \<open>
  \<open>registerDevice\<close> tears the device down when the first control call fails. Its
  \<open>defer deviceFile.Close()\<close> runs on both returns of that branch, after
  \<open>releaseDevice\<close>, and its result is dropped. On the second return \<open>err\<close> is \<open>nil\<close>
  and \<open>%v\<close> prints it as \<open><nil>\<close>.
\<close>

definition registerDevice :: "kernel \<Rightarrow> 64 word \<Rightarrow> trace \<Rightarrow> error \<times> trace" where
  "registerDevice K evType h =
     (case ioctl K uiSetEvBit evType h of
        (None, h1) \<Rightarrow> (None, h1)
      | (Some err, h1) \<Rightarrow>
          (case releaseDevice K h1 of
             (Some err', h2) \<Rightarrow>
               (Some (Errorf ''failed to close device'' err'), snd (file_Close K h2))
           | (None, h2) \<Rightarrow>
               (Some (ErrorNew ''invalid file handle returned from ioctl: <nil>''),
                snd (file_Close K h2))))"

section \<open>Writing events (uinput.go)\<close>

definition syncEvents :: "kernel \<Rightarrow> trace \<Rightarrow> error \<times> trace" where
  "syncEvents K h =
     (case inputEventToBuffer
             \<lparr> Time = \<lparr> Sec = 0, Usec = 0 \<rparr>, Type = evSyn, Code = synReport, Value = 0 \<rparr> of
        Inl err \<Rightarrow> (Some (Errorf ''writing sync event failed'' err), h)
      | Inr buf \<Rightarrow> file_Write K buf h)"

text \<open>
  The record that \<open>sendBtnEvent\<close> builds for one key: \<open>uint16(key)\<close> and
  \<open>int32(btnState)\<close> keep the low bits of the \<open>int\<close>.
\<close>

definition btnEvent :: "64 word \<Rightarrow> 64 word \<Rightarrow> inputEvent" where
  "btnEvent key btnState =
     \<lparr> Time = \<lparr> Sec = 0, Usec = 0 \<rparr>, Type = evKey, Code = ucast key,
       Value = ucast btnState \<rparr>"

text \<open>The \<open>for _, key := range keys\<close> loop, with its two early returns.\<close>

fun sendBtnEvent_loop :: "kernel \<Rightarrow> 64 word list \<Rightarrow> 64 word \<Rightarrow> trace \<Rightarrow> error \<times> trace" where
  "sendBtnEvent_loop K [] btnState h = (None, h)"
| "sendBtnEvent_loop K (key # keys) btnState h =
     (case inputEventToBuffer (btnEvent key btnState) of
        Inl err \<Rightarrow> (Some (Errorf ''key event could not be set'' err), h)
      | Inr buf \<Rightarrow>
          (case file_Write K buf h of
             (Some err, h') \<Rightarrow>
               (Some (Errorf ''writing btnEvent structure to the device file failed'' err), h')
           | (None, h') \<Rightarrow> sendBtnEvent_loop K keys btnState h'))"

definition sendBtnEvent :: "kernel \<Rightarrow> 64 word list \<Rightarrow> 64 word \<Rightarrow> trace \<Rightarrow> error \<times> trace" where
  "sendBtnEvent K keys btnState h =
     (case sendBtnEvent_loop K keys btnState h of
        (Some err, h') \<Rightarrow> (Some err, h')
      | (None, h') \<Rightarrow> syncEvents K h')"

section \<open>The force-feedback exchange (uinput.go)\<close>

text \<open>
  \<open>readEvent\<close> returns \<open>(*inputEvent, error)\<close>: \<open>Inl err\<close> is \<open>(nil, err)\<close>,
  \<open>Inr None\<close> is \<open>(nil, nil)\<close> and \<open>Inr (Some iev)\<close> is \<open>(&iev, nil)\<close>. The whole
  24-byte buffer is decoded, whatever the count of bytes read, once it is not 0. The
  branch for \<open>n == 0\<close> is kept as the code has it.
\<close>

definition readEvent :: "kernel \<Rightarrow> trace \<Rightarrow> (goerror + inputEvent option) \<times> trace" where
  "readEvent K h =
     (case file_Read K 24 h of
        ((buf, n, Some err), h') \<Rightarrow>
          (Inl (Errorf ''reading input event from device file failed'' err), h')
      | ((buf, n, None), h') \<Rightarrow>
          if n = 0 then (Inr None, h')
          else (case inputEventFromBuffer buf of
                  Inl err \<Rightarrow>
                    (Inl (Errorf ''device file read failed on input event from buffer'' err), h')
                | Inr iev \<Rightarrow> (Inr (Some iev), h')))"

text \<open>
  The user's callback \<open>func(upload *UInputFFUpload, erase *UInputFFErase) int32\<close>
  is called either as \<open>callback(&ffUp, nil)\<close> or as \<open>callback(nil, &ffErs)\<close>. It
  gets a pointer, so it may change the request record: \<open>cb_upload\<close> and \<open>cb_erase\<close>
  give, for each of the two ways of calling it, the returned code and the record as
  the callback leaves it. A \<open>nil\<close> callback is \<open>None\<close>.
\<close>

record callback =
  cb_upload :: "UInputFFUpload \<Rightarrow> 32 word \<times> UInputFFUpload"
  cb_erase :: "UInputFFErase \<Rightarrow> 32 word \<times> UInputFFErase"

text \<open>The \<open>case uiFFUpload\<close> branch; \<open>uint32(ie.Value)\<close> keeps all 32 bits.\<close>

definition ffUploadCase :: "kernel \<Rightarrow> callback \<Rightarrow> inputEvent \<Rightarrow> trace \<Rightarrow> error \<times> trace" where
  "ffUploadCase K cb ie h =
     (let ffUp = zeroFFUpload \<lparr> UInputFFUpload.RequestID := Value ie \<rparr>
      in case ioctl_FFUpload K uiBeginFFUpload ffUp h of
           ((Some err, ffUp1), h1) \<Rightarrow> (Some (Errorf ''begin ff upload ioctl failed'' err), h1)
         | ((None, ffUp1), h1) \<Rightarrow>
             (case cb_upload cb ffUp1 of
                (ret, ffUp2) \<Rightarrow>
                  (case ioctl_FFUpload K uiEndFFUpload
                          (ffUp2 \<lparr> UInputFFUpload.ReturnValue := ret \<rparr>)
                          (h1 @ [Callback (Some ffUp1) None]) of
                     ((Some err, ffUp3), h2) \<Rightarrow>
                       (Some (Errorf ''end ff upload ioctl failed'' err), h2)
                   | ((None, ffUp3), h2) \<Rightarrow> (None, h2))))"

text \<open>The \<open>case uiFFErase\<close> branch.\<close>

definition ffEraseCase :: "kernel \<Rightarrow> callback \<Rightarrow> inputEvent \<Rightarrow> trace \<Rightarrow> error \<times> trace" where
  "ffEraseCase K cb ie h =
     (let ffErs = zeroFFErase \<lparr> UInputFFErase.RequestID := Value ie \<rparr>
      in case ioctl_FFErase K uiBeginFFErase ffErs h of
           ((Some err, ffErs1), h1) \<Rightarrow> (Some (Errorf ''begin ff erase ioctl failed'' err), h1)
         | ((None, ffErs1), h1) \<Rightarrow>
             (case cb_erase cb ffErs1 of
                (ret, ffErs2) \<Rightarrow>
                  (case ioctl_FFErase K uiEndFFErase
                          (ffErs2 \<lparr> UInputFFErase.ReturnValue := ret \<rparr>)
                          (h1 @ [Callback None (Some ffErs1)]) of
                     ((Some err, ffErs3), h2) \<Rightarrow>
                       (Some (Errorf ''end ff erase ioctl failed'' err), h2)
                   | ((None, ffErs3), h2) \<Rightarrow> (None, h2))))"

definition forceFeedbackCallback ::
  "kernel \<Rightarrow> callback option \<Rightarrow> trace \<Rightarrow> error \<times> trace" where
  "forceFeedbackCallback K callback h =
     (case readEvent K h of
        (Inl err, h') \<Rightarrow> (Some err, h')
      | (Inr None, h') \<Rightarrow> (None, h')
      | (Inr (Some ie), h') \<Rightarrow>
          (case callback of
             None \<Rightarrow> (Some (ErrorNew ''callback was nil''), h')
           | Some cb \<Rightarrow>
               if inputEvent.Type ie = evUinput then
                 (if Code ie = uiFFUpload then ffUploadCase K cb ie h'
                  else if Code ie = uiFFErase then ffEraseCase K cb ie h'
                  else (None, h'))
               else (None, h')))"

section \<open>Vocabulary for traces\<close>

text \<open>The synchronization record that \<open>syncEvents\<close> writes.\<close>

definition syncEvent :: inputEvent where
  "syncEvent = \<lparr> Time = \<lparr> Sec = 0, Usec = 0 \<rparr>, Type = evSyn, Code = synReport, Value = 0 \<rparr>"

text \<open>The serialized form of a record: the buffer \<open>inputEventToBuffer\<close> returns.\<close>

definition eventBytes :: "inputEvent \<Rightarrow> byte list" where
  "eventBytes iev = (case inputEventToBuffer iev of Inr buf \<Rightarrow> buf | Inl err \<Rightarrow> [])"

text \<open>One write of a key record per code, in list order.\<close>

definition keyWrites :: "64 word list \<Rightarrow> 64 word \<Rightarrow> trace" where
  "keyWrites keys btnState = map (\<lambda>key. Write (eventBytes (btnEvent key btnState))) keys"

fun isCallback :: "action \<Rightarrow> bool" where
  "isCallback (Callback upload erase) = True"
| "isCallback a = False"

section \<open>Concrete devices, callbacks and records\<close>

text \<open>
  A rumble effect whose payload starts with the magnitudes \<open>0x1234\<close> and \<open>0x5678\<close>;
  \<open>0x50\<close> is the kernel's tag for a rumble effect.
\<close>

definition populatedEffect :: FFEffect where
  "populatedEffect =
     zeroFFEffect \<lparr> FFEffect.Type := 0x50, u := [0x34, 0x12, 0x78, 0x56] @ replicate 28 0 \<rparr>"

text \<open>
  A kernel that answers every read with the bytes \<open>incoming\<close>, every write with
  \<open>werr\<close> and every control call with the error number \<open>errno\<close>, and that fills in
  the effect of an upload request at "begin upload".
\<close>

definition synthetic_kernel :: "byte list \<Rightarrow> error \<Rightarrow> 64 word \<Rightarrow> kernel" where
  "synthetic_kernel incoming werr errno =
     \<lparr> k_read = (\<lambda>h n. (incoming, None)),
       k_write = (\<lambda>h b. werr),
       k_ioctl = (\<lambda>h cmd arg. errno),
       k_ioctl_upload = (\<lambda>h cmd r.
          (errno, if cmd = uiBeginFFUpload then r \<lparr> Effect := populatedEffect \<rparr> else r)),
       k_ioctl_erase = (\<lambda>h cmd r. (errno, r)),
       k_close = (\<lambda>h. None) \<rparr>"

text \<open>
  The 24 bytes of an event with a zero timestamp, given the two bytes of its type,
  the two bytes of its code and the low byte of its value.
\<close>

definition rawEvent :: "byte \<Rightarrow> byte \<Rightarrow> byte \<Rightarrow> byte \<Rightarrow> byte \<Rightarrow> byte list" where
  "rawEvent t0 t1 c0 c1 v0 =
     [0, 0, 0, 0, 0, 0, 0, 0,  0, 0, 0, 0, 0, 0, 0, 0,  t0, t1,  c0, c1,  v0, 0, 0, 0]"

text \<open>A callback that leaves the request as it is and returns \<open>ret\<close>.\<close>

definition fixed_callback :: "32 word \<Rightarrow> callback" where
  "fixed_callback ret = \<lparr> cb_upload = (\<lambda>r. (ret, r)), cb_erase = (\<lambda>r. (ret, r)) \<rparr>"

text \<open>
  Two effect payloads of 32 bytes that agree on bytes 0 to 11 and differ on bytes 12
  to 15.
\<close>

definition effectWith :: "byte list \<Rightarrow> FFEffect" where
  "effectWith payload = zeroFFEffect \<lparr> u := payload \<rparr>"

definition payloadA :: "byte list" where
  "payloadA = [1, 0, 2, 0, 3, 0, 4, 0, 5, 0, 6, 0,  0, 0, 0, 0,
               7, 0, 8, 0, 9, 0, 10, 0, 11, 0, 12, 0,  0, 0, 0, 0]"

definition payloadB :: "byte list" where
  "payloadB = [1, 0, 2, 0, 3, 0, 4, 0, 5, 0, 6, 0,  0xAA, 0xBB, 0xCC, 0xDD,
               7, 0, 8, 0, 9, 0, 10, 0, 11, 0, 12, 0,  0, 0, 0, 0]"

section \<open>Properties of the byte order functions\<close>

lemma length_le_bytes [simp]: "length (le_bytes n w) = n"
  by (induction n arbitrary: w) simp_all

lemma le_bytes_eq_Nil [simp]: "le_bytes n w = [] \<longleftrightarrow> n = 0"
  by (cases n) simp_all

lemma le_bytes_numeral:
  "le_bytes (numeral k) w = ucast w # le_bytes (pred_numeral k) (drop_bit 8 w)"
  by (simp add: numeral_eq_Suc)

lemma le_word_le_bytes:
  "(le_word (le_bytes n w) :: 'a::len word) = take_bit (8 * n) (w :: 'a word)"
proof (induction n arbitrary: w)
  case 0
  show ?case by simp
next
  case (Suc n)
  have "(ucast (ucast w :: byte) OR push_bit 8 (take_bit (8 * n) (drop_bit 8 w)) :: 'a word)
        = take_bit (8 + 8 * n) w"
  proof (rule bit_word_eqI)
    fix m assume m: "m < LENGTH('a)"
    show "bit (ucast (ucast w :: byte) OR push_bit 8 (take_bit (8 * n) (drop_bit 8 w)) :: 'a word) m
        = bit (take_bit (8 + 8 * n) w) m"
      using m by (cases "m < 8")
        (auto simp: bit_or_iff bit_ucast_iff bit_push_bit_iff bit_take_bit_iff bit_drop_bit_eq)
  qed
  then show ?case by (simp add: Suc)
qed

lemma le_word_le_bytes_full:
  "LENGTH('a::len) \<le> 8 * n \<Longrightarrow> (le_word (le_bytes n w) :: 'a word) = (w :: 'a word)"
  by (simp add: le_word_le_bytes take_bit_word_eq_self)

lemma bit_le_word_bound:
  "bit (le_word bs :: 'a::len word) k \<Longrightarrow> k < 8 * length bs"
proof (induction bs arbitrary: k)
  case Nil
  then show ?case by simp
next
  case (Cons b bs)
  from Cons.prems have "bit b k \<or> (8 \<le> k \<and> bit (le_word bs :: 'a word) (k - 8))"
    by (auto simp: bit_or_iff bit_ucast_iff bit_push_bit_iff)
  then show ?case
  proof
    assume "bit b k"
    then have "k < 8" by (auto dest: bit_imp_le_length)
    then show ?thesis by simp
  next
    assume h: "8 \<le> k \<and> bit (le_word bs :: 'a word) (k - 8)"
    then have "k - 8 < 8 * length bs" using Cons.IH by blast
    with h show ?thesis by simp
  qed
qed

lemma le_bytes_le_word:
  "8 * length bs \<le> LENGTH('a::len) \<Longrightarrow> le_bytes (length bs) (le_word bs :: 'a word) = bs"
proof (induction bs)
  case Nil
  show ?case by simp
next
  case (Cons b bs)
  have len: "8 * length bs + 8 \<le> LENGTH('a)"
    using Cons.prems by simp
  have lo: "(ucast (ucast b OR push_bit 8 (le_word bs :: 'a word) :: 'a word) :: byte) = b"
    using len by (intro bit_word_eqI) (auto simp: bit_or_iff bit_ucast_iff bit_push_bit_iff)
  have hi: "drop_bit 8 (ucast b OR push_bit 8 (le_word bs :: 'a word) :: 'a word) = le_word bs"
  proof (rule bit_word_eqI)
    fix m assume m: "m < LENGTH('a)"
    have "m + 8 < LENGTH('a)" if "bit (le_word bs :: 'a word) m"
      using bit_le_word_bound [OF that] len by simp
    then show "bit (drop_bit 8 (ucast b OR push_bit 8 (le_word bs :: 'a word) :: 'a word)) m
               = bit (le_word bs :: 'a word) m"
      using m by (auto simp: bit_or_iff bit_ucast_iff bit_push_bit_iff bit_drop_bit_eq
                       dest: bit_imp_le_length)
  qed
  have IH: "le_bytes (length bs) (le_word bs :: 'a word) = bs"
    using Cons.IH len by simp
  show ?case
    by (simp only: length_Cons le_word.simps le_bytes.simps lo hi IH)
qed

section \<open>The codec round trip\<close>

text \<open>
  Claim C1. Encoding an event record always succeeds and gives 24 bytes, and decoding
  those bytes gives the record back: \<open>inputEventFromBuffer (inputEventToBuffer e) = e\<close>.
\<close>

theorem inputEvent_roundtrip:
  "\<exists>buf. inputEventToBuffer e = Inr buf \<and> length buf = 24
         \<and> inputEventFromBuffer buf = Inr e"
  by (simp add: inputEventToBuffer_def inputEventFromBuffer_def le_word_le_bytes_full)

section \<open>Reading an event\<close>

lemma readEvent_trace: "snd (readEvent K h) = h @ [Read 24]"
  by (auto simp: readEvent_def file_Read_def split: prod.splits option.splits sum.splits)


lemma readEvent_synthetic:
  "readEvent (synthetic_kernel (rawEvent t0 t1 c0 c1 v0) werr errno) h =
     (Inr (Some \<lparr> Time = \<lparr> Sec = 0, Usec = 0 \<rparr>, Type = le_word [t0, t1], Code = le_word [c0, c1], Value = le_word [v0, 0, 0, 0] \<rparr>), h @ [Read 24])"
  by (simp add: readEvent_def file_Read_def synthetic_kernel_def rawEvent_def inputEventFromBuffer_def)

section \<open>The force-feedback exchange: upload\<close>

text \<open>
  Claim C2. Let the exchange read an event \<open>ie\<close> of type \<open>evUinput\<close> with code
  \<open>uiFFUpload\<close>, with a callback that is not \<open>nil\<close>. It builds an upload request
  \<open>req\<close> whose \<open>RequestID\<close> is the event's value and issues "begin upload" on it. When
  that call fails (\<open>e1 \<noteq> 0\<close>) the error is returned and the callback is not invoked.
  Otherwise the callback is invoked exactly once, with the request as the kernel
  populated it as first argument and \<open>nil\<close> as second; its returned code \<open>ret\<close> is
  stored in the \<open>ReturnValue\<close> of the request, and "end upload" is issued on that
  request \<open>wb\<close>; the result is an error exactly when "end upload" fails
  (\<open>e2 \<noteq> 0\<close>). In every case the callback is invoked at most once.
\<close>

theorem forceFeedbackCallback_upload:
  assumes rd: "readEvent K h = (Inr (Some ie), h1)"
    and ty: "inputEvent.Type ie = evUinput"
    and co: "Code ie = uiFFUpload"
    and req: "req = zeroFFUpload \<lparr> UInputFFUpload.RequestID := Value ie \<rparr>"
    and bg: "k_ioctl_upload K h1 uiBeginFFUpload req = (e1, populated)"
    and cb: "cb_upload cb populated = (ret, left)"
    and wb: "wb = left \<lparr> UInputFFUpload.ReturnValue := ret \<rparr>"
    and en: "k_ioctl_upload K
               (h1 @ [Ioctl uiBeginFFUpload (ArgFFUpload req), Callback (Some populated) None])
               uiEndFFUpload wb = (e2, final)"
  shows "UInputFFUpload.RequestID req = Value ie \<and> UInputFFUpload.ReturnValue wb = ret \<and>
         h1 = h @ [Read 24] \<and>
         forceFeedbackCallback K (Some cb) h =
           (if e1 \<noteq> 0 then
              (Some (Errorf ''begin ff upload ioctl failed'' (Errno e1)),
               h1 @ [Ioctl uiBeginFFUpload (ArgFFUpload req)])
            else
              (if e2 \<noteq> 0 then Some (Errorf ''end ff upload ioctl failed'' (Errno e2)) else None,
               h1 @ [Ioctl uiBeginFFUpload (ArgFFUpload req), Callback (Some populated) None,
                     Ioctl uiEndFFUpload (ArgFFUpload wb)])) \<and>
         length (filter isCallback (drop (length h1) (snd (forceFeedbackCallback K (Some cb) h))))
           = (if e1 \<noteq> 0 then 0 else 1)"
proof -
  have h1: "h1 = h @ [Read 24]"
    using readEvent_trace [of K h] rd by simp
  have run: "forceFeedbackCallback K (Some cb) h =
           (if e1 \<noteq> 0 then
              (Some (Errorf ''begin ff upload ioctl failed'' (Errno e1)),
               h1 @ [Ioctl uiBeginFFUpload (ArgFFUpload req)])
            else
              (if e2 \<noteq> 0 then Some (Errorf ''end ff upload ioctl failed'' (Errno e2)) else None,
               h1 @ [Ioctl uiBeginFFUpload (ArgFFUpload req), Callback (Some populated) None,
                     Ioctl uiEndFFUpload (ArgFFUpload wb)]))"
    using bg cb en
    by (simp add: forceFeedbackCallback_def rd ty co ffUploadCase_def ioctl_FFUpload_def
        req [symmetric] wb [symmetric])
  show ?thesis
    by (simp add: run h1 req wb)
qed

text \<open>
  An instance: the kernel delivers \<open>{type = 0x0101, code = 1, value = 7}\<close> and the
  callback returns 5. The callback is invoked once, with request 7 and \<open>nil\<close>, and the
  write-back carries 5 under request 7.
\<close>

theorem forceFeedbackCallback_upload_witness:
  "forceFeedbackCallback (synthetic_kernel (rawEvent 1 1 1 0 7) None 0) (Some (fixed_callback 5)) [] =
     (None,
      [Read 24,
       Ioctl uiBeginFFUpload (ArgFFUpload (zeroFFUpload \<lparr> UInputFFUpload.RequestID := 7 \<rparr>)),
       Callback (Some (zeroFFUpload \<lparr> UInputFFUpload.RequestID := 7, Effect := populatedEffect \<rparr>)) None,
       Ioctl uiEndFFUpload (ArgFFUpload (zeroFFUpload
          \<lparr> UInputFFUpload.RequestID := 7, Effect := populatedEffect, UInputFFUpload.ReturnValue := 5 \<rparr>))])"
proof -
  let ?K = "synthetic_kernel (rawEvent 1 1 1 0 7) None 0"
  let ?ie = "\<lparr> Time = \<lparr> Sec = 0, Usec = 0 \<rparr>, Type = le_word [1, 1], Code = le_word [1, 0],
               Value = le_word [7, 0, 0, 0] \<rparr>"
  let ?req = "zeroFFUpload \<lparr> UInputFFUpload.RequestID := Value ?ie \<rparr>"
  let ?pop = "?req \<lparr> Effect := populatedEffect \<rparr>"
  have rd: "readEvent ?K [] = (Inr (Some ?ie), [Read 24])"
    using readEvent_synthetic [of 1 1 1 0 7 None 0 "[]"] by simp
  have ty: "inputEvent.Type ?ie = evUinput" by (simp add: evUinput_def)
  have co: "Code ?ie = uiFFUpload" by (simp add: uiFFUpload_def)
  have bg: "k_ioctl_upload ?K [Read 24] uiBeginFFUpload ?req = (0, ?pop)"
    by (simp add: synthetic_kernel_def populatedEffect_def)
  have cb: "cb_upload (fixed_callback 5) ?pop = (5, ?pop)"
    by (simp add: fixed_callback_def)
  have en: "k_ioctl_upload ?K
       ([Read 24] @ [Ioctl uiBeginFFUpload (ArgFFUpload ?req), Callback (Some ?pop) None])
       uiEndFFUpload (?pop \<lparr> UInputFFUpload.ReturnValue := 5 \<rparr>)
       = (0, ?pop \<lparr> UInputFFUpload.ReturnValue := 5 \<rparr>)"
    by (simp add: synthetic_kernel_def uiEndFFUpload_def uiBeginFFUpload_def)
  show ?thesis
    using forceFeedbackCallback_upload [OF rd ty co refl bg cb refl en] by simp
qed

section \<open>The force-feedback exchange: a nil callback\<close>



section \<open>The force-feedback exchange: events that are ignored\<close>

text \<open>
  Claim C9, as the code has it. For every event read whose type is not \<open>evUinput\<close>
  (\<open>0x0101\<close>), the exchange called with a callback that is not \<open>nil\<close> returns success;
  its trace is the read alone, so the callback is not invoked and no control call is
  issued.
\<close>

theorem forceFeedbackCallback_other_type:
  "readEvent K h = (Inr (Some ie), h1) \<Longrightarrow> inputEvent.Type ie \<noteq> evUinput \<Longrightarrow>
   forceFeedbackCallback K (Some cb) h = (None, h @ [Read 24])"
  using readEvent_trace [of K h]
  by (simp add: forceFeedbackCallback_def)

text \<open>
  An instance: a key event (type \<open>evKey\<close>, code 30, value 1).
\<close>

theorem forceFeedbackCallback_other_type_witness:
  "forceFeedbackCallback (synthetic_kernel (rawEvent 1 0 30 0 1) None 0) (Some (fixed_callback 5)) []
     = (None, [Read 24])"
proof -
  let ?K = "synthetic_kernel (rawEvent 1 0 30 0 1) None 0"
  let ?ie = "\<lparr> Time = \<lparr> Sec = 0, Usec = 0 \<rparr>, Type = le_word [1, 0], Code = le_word [30, 0],
               Value = le_word [1, 0, 0, 0] \<rparr>"
  have rd: "readEvent ?K [] = (Inr (Some ?ie), [Read 24])"
    using readEvent_synthetic [of 1 0 30 0 1 None 0 "[]"] by simp
  have ty: "inputEvent.Type ?ie \<noteq> evUinput" by (simp add: evUinput_def)
  show ?thesis
    using forceFeedbackCallback_other_type [OF rd ty] by simp
qed

text \<open>
  The same key event with a \<open>nil\<close> callback: the type is not \<open>evUinput\<close>, and the
  exchange returns the error \<open>callback was nil\<close>, not success.
\<close>

theorem other_type_nil_callback_counterexample:
  "readEvent (synthetic_kernel (rawEvent 1 0 30 0 1) None 0) [] =
     (Inr (Some \<lparr> Time = \<lparr> Sec = 0, Usec = 0 \<rparr>, Type = evKey, Code = 30, Value = 1 \<rparr>), [Read 24])
   \<and> evKey \<noteq> evUinput
   \<and> forceFeedbackCallback (synthetic_kernel (rawEvent 1 0 30 0 1) None 0) None [] =
     (Some (ErrorNew ''callback was nil''), [Read 24])"
  by (simp add: forceFeedbackCallback_def readEvent_synthetic evKey_def evUinput_def)

text \<open>
  Claim C10. For every event read whose type is \<open>evUinput\<close> (\<open>0x0101\<close>) and whose
  code is neither \<open>uiFFUpload\<close> (1) nor \<open>uiFFErase\<close> (2), the exchange called with a
  callback that is not \<open>nil\<close> returns success; its trace is the read alone, so no
  callback is invoked and no control call is issued.
\<close>

theorem forceFeedbackCallback_other_code:
  "readEvent K h = (Inr (Some ie), h1) \<Longrightarrow> inputEvent.Type ie = evUinput \<Longrightarrow>
   Code ie \<noteq> uiFFUpload \<Longrightarrow> Code ie \<noteq> uiFFErase \<Longrightarrow>
   forceFeedbackCallback K (Some cb) h = (None, h @ [Read 24])"
  using readEvent_trace [of K h]
  by (simp add: forceFeedbackCallback_def)

text \<open>
  An instance: a control event with code 3.
\<close>

theorem forceFeedbackCallback_other_code_witness:
  "forceFeedbackCallback (synthetic_kernel (rawEvent 1 1 3 0 7) None 0) (Some (fixed_callback 5)) []
     = (None, [Read 24])"
proof -
  let ?K = "synthetic_kernel (rawEvent 1 1 3 0 7) None 0"
  let ?ie = "\<lparr> Time = \<lparr> Sec = 0, Usec = 0 \<rparr>, Type = le_word [1, 1], Code = le_word [3, 0],
               Value = le_word [7, 0, 0, 0] \<rparr>"
  have rd: "readEvent ?K [] = (Inr (Some ?ie), [Read 24])"
    using readEvent_synthetic [of 1 1 3 0 7 None 0 "[]"] by simp
  have ty: "inputEvent.Type ?ie = evUinput" by (simp add: evUinput_def)
  have c1: "Code ?ie \<noteq> uiFFUpload" by (simp add: uiFFUpload_def)
  have c2: "Code ?ie \<noteq> uiFFErase" by (simp add: uiFFErase_def)
  show ?thesis
    using forceFeedbackCallback_other_code [OF rd ty c1 c2] by simp
qed

section \<open>Sending button events\<close>

lemma inputEventToBuffer_eventBytes: "inputEventToBuffer iev = Inr (eventBytes iev)"
  by (simp add: eventBytes_def inputEventToBuffer_def)

lemma sendBtnEvent_loop_ok:
  "(\<forall>i<length keys. k_write K (h @ keyWrites (take i keys) btnState)
        (eventBytes (btnEvent (keys ! i) btnState)) = None) \<Longrightarrow>
   sendBtnEvent_loop K keys btnState h = (None, h @ keyWrites keys btnState)"
proof (induction keys arbitrary: h)
  case Nil
  show ?case by (simp add: keyWrites_def)
next
  case (Cons key keys)
  have first: "k_write K h (eventBytes (btnEvent key btnState)) = None"
    using Cons.prems [rule_format, of 0] by (simp add: keyWrites_def)
  have rest: "\<forall>i<length keys.
      k_write K ((h @ [Write (eventBytes (btnEvent key btnState))]) @ keyWrites (take i keys) btnState)
        (eventBytes (btnEvent (keys ! i) btnState)) = None"
  proof (intro allI impI)
    fix i assume "i < length keys"
    then show "k_write K ((h @ [Write (eventBytes (btnEvent key btnState))]) @ keyWrites (take i keys) btnState)
        (eventBytes (btnEvent (keys ! i) btnState)) = None"
      using Cons.prems [rule_format, of "Suc i"] by (simp add: keyWrites_def)
  qed
  show ?case
    using Cons.IH [OF rest] first
    by (simp add: inputEventToBuffer_eventBytes file_Write_def keyWrites_def)
qed

text \<open>
  Claim C3, as the code has it. For every list of key codes and every button state,
  provided each write of a key record succeeds, \<open>sendBtnEvent\<close> writes one key record
  (\<open>btnEvent key btnState\<close>: type \<open>evKey\<close>, the code, the state) per code in list
  order, then one synchronization record (\<open>syncEvent\<close>: type \<open>evSyn\<close>, code
  \<open>synReport\<close>, value 0), and returns what that last write returns.
\<close>

theorem sendBtnEvent_writes:
  "(\<forall>i<length keys. k_write K (h @ keyWrites (take i keys) btnState)
        (eventBytes (btnEvent (keys ! i) btnState)) = None) \<Longrightarrow>
   sendBtnEvent K keys btnState h =
     (k_write K (h @ keyWrites keys btnState) (eventBytes syncEvent),
      h @ keyWrites keys btnState @ [Write (eventBytes syncEvent)])"
  by (simp add: sendBtnEvent_def sendBtnEvent_loop_ok syncEvents_def syncEvent_def [symmetric]
      inputEventToBuffer_eventBytes file_Write_def)

text \<open>
  When the write of the key record number \<open>n\<close> is the first to fail, the loop
  returns its error at once: later codes are not written.
\<close>

lemma sendBtnEvent_loop_fails:
  "n < length keys \<Longrightarrow>
   (\<forall>i<n. k_write K (h @ keyWrites (take i keys) btnState)
        (eventBytes (btnEvent (keys ! i) btnState)) = None) \<Longrightarrow>
   k_write K (h @ keyWrites (take n keys) btnState)
        (eventBytes (btnEvent (keys ! n) btnState)) = Some err \<Longrightarrow>
   sendBtnEvent_loop K keys btnState h =
     (Some (Errorf ''writing btnEvent structure to the device file failed'' err),
      h @ keyWrites (take (Suc n) keys) btnState)"
proof (induction keys arbitrary: h n)
  case Nil
  then show ?case by simp
next
  case (Cons key keys)
  show ?case
  proof (cases n)
    case 0
    with Cons.prems show ?thesis
      by (simp add: inputEventToBuffer_eventBytes file_Write_def keyWrites_def)
  next
    case (Suc m)
    have first: "k_write K h (eventBytes (btnEvent key btnState)) = None"
      using Cons.prems(2) [rule_format, of 0] Suc by (simp add: keyWrites_def)
    have m: "m < length keys" using Cons.prems(1) Suc by simp
    have rest: "\<forall>i<m.
      k_write K ((h @ [Write (eventBytes (btnEvent key btnState))]) @ keyWrites (take i keys) btnState)
        (eventBytes (btnEvent (keys ! i) btnState)) = None"
    proof (intro allI impI)
      fix i assume "i < m"
      then show "k_write K ((h @ [Write (eventBytes (btnEvent key btnState))]) @ keyWrites (take i keys) btnState)
        (eventBytes (btnEvent (keys ! i) btnState)) = None"
        using Cons.prems(2) [rule_format, of "Suc i"] Suc by (simp add: keyWrites_def)
    qed
    have fail: "k_write K ((h @ [Write (eventBytes (btnEvent key btnState))]) @ keyWrites (take m keys) btnState)
        (eventBytes (btnEvent (keys ! m) btnState)) = Some err"
      using Cons.prems(3) Suc by (simp add: keyWrites_def)
    show ?thesis
      using Cons.IH [OF m rest fail] first Suc
      by (simp add: inputEventToBuffer_eventBytes file_Write_def keyWrites_def)
  qed
qed

lemma eventBytes_btnEvent_1_pressed:
  "eventBytes (btnEvent 1 btnStatePressed) = [0,0,0,0,0,0,0,0, 0,0,0,0,0,0,0,0, 1,0, 1,0, 1,0,0,0]"
  by (simp add: eventBytes_def inputEventToBuffer_def btnEvent_def btnStatePressed_def evKey_def le_bytes_numeral)

lemma eventBytes_btnEvent_1_released:
  "eventBytes (btnEvent 1 btnStateReleased) = [0,0,0,0,0,0,0,0, 0,0,0,0,0,0,0,0, 1,0, 1,0, 0,0,0,0]"
  by (simp add: eventBytes_def inputEventToBuffer_def btnEvent_def btnStateReleased_def evKey_def le_bytes_numeral)

lemma eventBytes_syncEvent:
  "eventBytes syncEvent = [0,0,0,0,0,0,0,0, 0,0,0,0,0,0,0,0, 0,0, 0,0, 0,0,0,0]"
  by (simp add: eventBytes_def inputEventToBuffer_def syncEvent_def evSyn_def synReport_def le_bytes_numeral)

text \<open>
  An instance. \<open>KeyDown(1)\<close> and \<open>KeyUp(1)\<close> of a keyboard are the calls
  \<open>sendBtnEvent\<close> of the one code 1 with the pressed and the released state. On a
  device that accepts every write, the two calls leave exactly four records: key
  down, sync, key up, sync; the sync records are 24 zero bytes (type 0, code 0,
  value 0).
\<close>

theorem sendBtnEvent_writes_witness:
  "sendBtnEvent (synthetic_kernel [] None 0) [1] btnStatePressed [] =
     (None, [Write (eventBytes (btnEvent 1 btnStatePressed)), Write (eventBytes syncEvent)])
   \<and> sendBtnEvent (synthetic_kernel [] None 0) [1] btnStateReleased (snd (sendBtnEvent (synthetic_kernel [] None 0) [1] btnStatePressed [])) =
     (None, [Write (eventBytes (btnEvent 1 btnStatePressed)), Write (eventBytes syncEvent),
             Write (eventBytes (btnEvent 1 btnStateReleased)), Write (eventBytes syncEvent)])
   \<and> eventBytes syncEvent = [0,0,0,0,0,0,0,0, 0,0,0,0,0,0,0,0, 0,0, 0,0, 0,0,0,0]"
proof -
  let ?K = "synthetic_kernel [] None 0"
  have ok: "\<forall>i<length [1::64 word]. k_write ?K (h @ keyWrites (take i [1]) st)
        (eventBytes (btnEvent ([1] ! i) st)) = None" for h st
    by (simp add: synthetic_kernel_def)
  have down: "sendBtnEvent ?K [1] btnStatePressed [] =
     (None, [Write (eventBytes (btnEvent 1 btnStatePressed)), Write (eventBytes syncEvent)])"
    using sendBtnEvent_writes [OF ok [of "[]" btnStatePressed]]
    by (simp add: keyWrites_def synthetic_kernel_def)
  have up: "sendBtnEvent ?K [1] btnStateReleased
       [Write (eventBytes (btnEvent 1 btnStatePressed)), Write (eventBytes syncEvent)] =
     (None, [Write (eventBytes (btnEvent 1 btnStatePressed)), Write (eventBytes syncEvent),
             Write (eventBytes (btnEvent 1 btnStateReleased)), Write (eventBytes syncEvent)])"
    using sendBtnEvent_writes [OF ok [of "[Write (eventBytes (btnEvent 1 btnStatePressed)), Write (eventBytes syncEvent)]" btnStateReleased]]
    by (simp add: keyWrites_def synthetic_kernel_def)
  show ?thesis
    using down up eventBytes_syncEvent by simp
qed

text \<open>
  On a device that refuses the write, \<open>sendBtnEvent\<close> returns the error after the
  one attempt to write the key record; no synchronization record is written.
\<close>

theorem sendBtnEvent_failed_write_counterexample:
  "sendBtnEvent (synthetic_kernel [] (Some (IOError ''input/output error'')) 0) [1] btnStatePressed [] =
     (Some (Errorf ''writing btnEvent structure to the device file failed''
              (IOError ''input/output error'')),
      [Write [0,0,0,0,0,0,0,0, 0,0,0,0,0,0,0,0, 1,0, 1,0, 1,0,0,0]])"
  using eventBytes_btnEvent_1_pressed
  by (simp add: sendBtnEvent_def inputEventToBuffer_eventBytes file_Write_def synthetic_kernel_def)

section \<open>Device teardown\<close>

text \<open>
  \<open>closeDevice\<close> issues the device-destroy control call first. When that call
  fails it returns the error, and the file is left open; otherwise it closes the file
  and returns the result of the close.
\<close>

lemma closeDevice_trace:
  "closeDevice K h =
     (if k_ioctl K h uiDevDestroy 0 \<noteq> 0
      then (Some (Errorf ''failed to close device'' (Errno (k_ioctl K h uiDevDestroy 0))),
            h @ [Ioctl uiDevDestroy (ArgUintptr 0)])
      else (k_close K (h @ [Ioctl uiDevDestroy (ArgUintptr 0)]),
            h @ [Ioctl uiDevDestroy (ArgUintptr 0), Close]))"
  by (simp add: closeDevice_def releaseDevice_def ioctl_def file_Close_def Let_def)

text \<open>
  Claim C5, at a device whose control calls fail with error number 25.
  \<open>closeDevice\<close> returns after the failed device-destroy call: its trace has no
  \<open>Close\<close>. \<open>registerDevice\<close>, on the same failure of the same call, does close the
  file.
\<close>

theorem closeDevice_destroy_fails:
  "closeDevice (synthetic_kernel [] None 25) [] =
     (Some (Errorf ''failed to close device'' (Errno 25)), [Ioctl uiDevDestroy (ArgUintptr 0)])
   \<and> registerDevice (synthetic_kernel [] None 25) 1 [] =
     (Some (Errorf ''failed to close device'' (Errno 25)),
      [Ioctl uiSetEvBit (ArgUintptr 1), Ioctl uiDevDestroy (ArgUintptr 0), Close])"
  by (simp add: closeDevice_def registerDevice_def releaseDevice_def ioctl_def file_Close_def
      synthetic_kernel_def)

section \<open>Decoding the effect payload\<close>

lemma load16_take: "off + 2 \<le> n \<Longrightarrow> load16 (take n mem) off = load16 mem off"
  by (simp add: load16_def drop_take min_def)

lemma load16_drop: "load16 (drop k mem) off = load16 mem (k + off)"
  by (simp add: load16_def add.commute)

lemma le_word_inj:
  assumes "(le_word xs :: 'a::len word) = le_word ys" "length xs = length ys"
    "8 * length xs \<le> LENGTH('a)"
  shows "xs = ys"
proof -
  have "xs = le_bytes (length xs) (le_word xs :: 'a word)"
    using assms(3) by (simp add: le_bytes_le_word)
  also have "\<dots> = le_bytes (length ys) (le_word ys :: 'a word)"
    using assms(1,2) by simp
  also have "\<dots> = ys"
    using assms(2,3) by (simp add: le_bytes_le_word)
  finally show ?thesis .
qed

lemma load16_eq_iff:
  "off + 2 \<le> length a \<Longrightarrow> off + 2 \<le> length b \<Longrightarrow>
   (load16 a off = load16 b off) = (take 2 (drop off a) = take 2 (drop off b))"
  unfolding load16_def
  by (auto intro: le_word_inj)

lemma take_drop_split:
  "n = m + r \<Longrightarrow> k' = k + m \<Longrightarrow>
   take n (drop k xs) = take m (drop k xs) @ take r (drop k' xs)"
  by (simp add: take_add add.commute)

lemma take_12_drop_split:
  "take 12 (drop off xs) =
      take 2 (drop off xs) @ take 2 (drop (off + 2) xs) @ take 2 (drop (off + 4) xs)
      @ take 2 (drop (off + 6) xs) @ take 2 (drop (off + 8) xs) @ take 2 (drop (off + 10) xs)"
proof -
  have s1: "take 12 (drop off xs) = take 2 (drop off xs) @ take 10 (drop (off + 2) xs)"
    by (rule take_drop_split) simp_all
  have s2: "take 10 (drop (off + 2) xs) = take 2 (drop (off + 2) xs) @ take 8 (drop (off + 4) xs)"
    by (rule take_drop_split) simp_all
  have s3: "take 8 (drop (off + 4) xs) = take 2 (drop (off + 4) xs) @ take 6 (drop (off + 6) xs)"
    by (rule take_drop_split) simp_all
  have s4: "take 6 (drop (off + 6) xs) = take 2 (drop (off + 6) xs) @ take 4 (drop (off + 8) xs)"
    by (rule take_drop_split) simp_all
  have s5: "take 4 (drop (off + 8) xs) = take 2 (drop (off + 8) xs) @ take 2 (drop (off + 10) xs)"
    by (rule take_drop_split) simp_all
  show ?thesis
    by (simp only: s1 s2 s3 s4 s5)
qed

lemma FFConditionEffect_at_block:
  "FFConditionEffect_at mem off = FFConditionEffect_at (take 12 (drop off mem)) 0"
proof -
  have "load16 (take 12 (drop off mem)) k = load16 mem (off + k)" if "k + 2 \<le> 12" for k
    using that by (simp add: load16_take load16_drop)
  then show ?thesis
    by (simp add: FFConditionEffect_at_def)
qed

lemma FFConditionEffect_at_eq_iff:
  assumes a: "off + 12 \<le> length a" and b: "off + 12 \<le> length b"
  shows "(FFConditionEffect_at a off = FFConditionEffect_at b off)
         = (take 12 (drop off a) = take 12 (drop off b))"
proof -
  have eq: "(load16 a k = load16 b k) = (take 2 (drop k a) = take 2 (drop k b))"
    if "k + 2 \<le> off + 12" for k
    using that a b by (intro load16_eq_iff) simp_all
  have len: "length (take 2 (drop k a)) = length (take 2 (drop k b))"
    if "k + 2 \<le> off + 12" for k
    using that a b by simp
  have fields: "(FFConditionEffect_at a off = FFConditionEffect_at b off) =
      (take 2 (drop off a) = take 2 (drop off b) \<and>
       take 2 (drop (off + 2) a) = take 2 (drop (off + 2) b) \<and>
       take 2 (drop (off + 4) a) = take 2 (drop (off + 4) b) \<and>
       take 2 (drop (off + 6) a) = take 2 (drop (off + 6) b) \<and>
       take 2 (drop (off + 8) a) = take 2 (drop (off + 8) b) \<and>
       take 2 (drop (off + 10) a) = take 2 (drop (off + 10) b))"
    by (simp add: FFConditionEffect_at_def eq)
  have bytes: "(take 12 (drop off a) = take 12 (drop off b)) =
      (take 2 (drop off a) = take 2 (drop off b) \<and>
       take 2 (drop (off + 2) a) = take 2 (drop (off + 2) b) \<and>
       take 2 (drop (off + 4) a) = take 2 (drop (off + 4) b) \<and>
       take 2 (drop (off + 6) a) = take 2 (drop (off + 6) b) \<and>
       take 2 (drop (off + 8) a) = take 2 (drop (off + 8) b) \<and>
       take 2 (drop (off + 10) a) = take 2 (drop (off + 10) b))"
    unfolding take_12_drop_split [of off a] take_12_drop_split [of off b]
    using len [of off] len [of "off + 2"] len [of "off + 4"] len [of "off + 6"]
      len [of "off + 8"] len [of "off + 10"]
    by (simp del: length_take length_drop)
  show ?thesis
    by (simp only: fields bytes)
qed

text \<open>
  Claim C6, as the code has it. Byte \<open>i\<close> of the payload \<open>u\<close> is byte \<open>16 + i\<close> of the
  48-byte effect record. The \<open>Condition\<close> accessor returns two condition blocks read
  from the payload, and each block is the decoding of 12 consecutive payload bytes
  (six 16-bit fields), not of 16 and not of 8. The first block begins at payload
  byte 0 (record byte 16): it is the decoding of payload bytes \<open>[0:12)\<close>, that is
  record bytes \<open>[16:28)\<close>, and two records give the same first block exactly when
  they agree on these bytes. Where the 12 bytes of the second block begin is not
  part of the statement.
\<close>

theorem Condition_blocks:
  assumes "length (u ff) = 32" and "length (u ff') = 32"
  shows "fst (Condition ff) = FFConditionEffect_at (take 12 (u ff)) 0
       \<and> (fst (Condition ff) = fst (Condition ff')) = (take 12 (u ff) = take 12 (u ff'))
       \<and> (\<exists>off. off + 12 \<le> 32 \<and>
             (\<forall>g. snd (Condition g) = FFConditionEffect_at (take 12 (drop off (u g))) 0))"
proof -
  have 1: "fst (Condition ff) = FFConditionEffect_at (take 12 (u ff)) 0"
    using FFConditionEffect_at_block [of "u ff" 0] by (simp add: Condition_def)
  have 2: "(fst (Condition ff) = fst (Condition ff')) = (take 12 (u ff) = take 12 (u ff'))"
    using FFConditionEffect_at_eq_iff [of 0 "u ff" "u ff'"] assms by (simp add: Condition_def)
  have "\<forall>g. snd (Condition g) = FFConditionEffect_at (take 12 (drop 16 (u g))) 0"
    using FFConditionEffect_at_block [of _ 16] by (simp add: Condition_def)
  then have 3: "\<exists>off. off + 12 \<le> 32 \<and>
             (\<forall>g. snd (Condition g) = FFConditionEffect_at (take 12 (drop off (u g))) 0)"
    by (intro exI [of _ 16]) simp
  show ?thesis
    using 1 2 3 by blast
qed

text \<open>
  An instance: two records that agree on payload bytes \<open>[0:12)\<close> and differ on the
  four bytes after them have the same first block.
\<close>

theorem Condition_blocks_witness:
  "length (u (effectWith payloadA)) = 32 \<and> length (u (effectWith payloadB)) = 32 \<and>
   fst (Condition (effectWith payloadA)) = fst (Condition (effectWith payloadB))"
proof -
  have a: "length (u (effectWith payloadA)) = 32" by (simp add: effectWith_def payloadA_def)
  have b: "length (u (effectWith payloadB)) = 32" by (simp add: effectWith_def payloadB_def)
  have same: "take 12 (u (effectWith payloadA)) = take 12 (u (effectWith payloadB))"
    by (simp add: effectWith_def payloadA_def payloadB_def)
  have "fst (Condition (effectWith payloadA)) = fst (Condition (effectWith payloadB))"
    by (rule iffD2 [OF conjunct1 [OF conjunct2 [OF Condition_blocks [OF a b]]] same])
  with a b show ?thesis by blast
qed

text \<open>
  The first block does not cover record bytes \<open>[16:32)\<close>: the two records differ
  within these 16 bytes, and \<open>Condition\<close> returns the same first block for both.
\<close>

theorem Condition_16_byte_blocks_counterexample:
  "fst (Condition (effectWith payloadA)) = fst (Condition (effectWith payloadB)) \<and>
   take 16 (u (effectWith payloadA)) \<noteq> take 16 (u (effectWith payloadB))"
  by (simp add: Condition_def FFConditionEffect_at_def load16_def effectWith_def payloadA_def
      payloadB_def)

text \<open>
  Claim C7. Byte \<open>i\<close> of the payload \<open>u\<close> is byte \<open>16 + i\<close> of the 48-byte effect
  record. When payload bytes \<open>[0:4)\<close> (record bytes \<open>[16:20)\<close>) hold a pair
  \<open>(strong, weak)\<close> of 16-bit values in little-endian order, the \<open>Rumble\<close> accessor
  returns exactly that pair; and two records give the same result exactly when they
  agree on these four bytes, so the result depends on them only.
\<close>

theorem Rumble_payload:
  assumes "take 4 (u ff) = le_bytes 2 strong @ le_bytes 2 weak"
    and "length (u ff) = 32" and "length (u ff') = 32"
  shows "Rumble ff = \<lparr> StrongMagnitude = strong, WeakMagnitude = weak \<rparr> \<and>
         (Rumble ff = Rumble ff') = (take 4 (u ff) = take 4 (u ff'))"
proof -
  have t0: "take 2 (u ff) = le_bytes 2 strong"
  proof -
    have "take 2 (u ff) = take 2 (take 4 (u ff))" by simp
    then show ?thesis by (simp add: assms(1))
  qed
  have t2: "take 2 (drop 2 (u ff)) = le_bytes 2 weak"
  proof -
    have "take 2 (drop 2 (u ff)) = drop 2 (take 4 (u ff))" by (simp add: drop_take)
    then show ?thesis by (simp add: assms(1))
  qed
  have 1: "Rumble ff = \<lparr> StrongMagnitude = strong, WeakMagnitude = weak \<rparr>"
    by (simp add: Rumble_def load16_def t0 t2 le_word_le_bytes_full)
  have split: "take 4 xs = take 2 xs @ take 2 (drop 2 xs)" for xs :: "byte list"
    using take_drop_split [of 4 2 2 2 0 xs] by simp
  have e0: "(load16 (u ff) 0 = load16 (u ff') 0) = (take 2 (u ff) = take 2 (u ff'))"
    using load16_eq_iff [of 0 "u ff" "u ff'"] assms(2,3) by simp
  have e2: "(load16 (u ff) 2 = load16 (u ff') 2) = (take 2 (drop 2 (u ff)) = take 2 (drop 2 (u ff')))"
    using load16_eq_iff [of 2 "u ff" "u ff'"] assms(2,3) by simp
  have 2: "(Rumble ff = Rumble ff') = (take 4 (u ff) = take 4 (u ff'))"
    unfolding split [of "u ff"] split [of "u ff'"]
    using assms(2,3) by (simp add: Rumble_def e0 e2)
  show ?thesis using 1 2 by simp
qed

text \<open>
  An instance: the magnitudes \<open>0x1234\<close> and \<open>0x5678\<close>, and a second record that
  differs in every payload byte after the fourth.
\<close>

theorem Rumble_payload_witness:
  "Rumble populatedEffect = \<lparr> StrongMagnitude = 0x1234, WeakMagnitude = 0x5678 \<rparr> \<and>
   Rumble populatedEffect = Rumble (populatedEffect \<lparr> u := [0x34, 0x12, 0x78, 0x56] @ replicate 28 0xFF \<rparr>)"
proof -
  let ?ff' = "populatedEffect \<lparr> u := [0x34, 0x12, 0x78, 0x56] @ replicate 28 0xFF \<rparr>"
  have a: "take 4 (u populatedEffect) = le_bytes 2 (0x1234 :: 16 word) @ le_bytes 2 (0x5678 :: 16 word)"
    by (simp add: populatedEffect_def le_bytes_numeral)
  have b: "length (u populatedEffect) = 32" by (simp add: populatedEffect_def)
  have c: "length (u ?ff') = 32" by simp
  have d: "take 4 (u populatedEffect) = take 4 (u ?ff')" by (simp add: populatedEffect_def)
  note R = Rumble_payload [OF a b c]
  have r1: "Rumble populatedEffect = \<lparr> StrongMagnitude = 0x1234, WeakMagnitude = 0x5678 \<rparr>"
    by (rule conjunct1 [OF R])
  have r2: "Rumble populatedEffect = Rumble ?ff'"
    by (rule iffD2 [OF conjunct2 [OF R] d])
  show ?thesis by (intro conjI r1 r2)
qed

end
